theory Spec2Isabelle
  imports Complex_Main
begin

section \<open>JavaScript values used by the login page\<close>

text \<open>
  The front end is JavaScript. Its numbers are modelled as exact reals together with the
  three non-finite values a division can produce, so that "the result is a finite number"
  is a statement with content. Rounding of IEEE doubles is not modelled. Reading a
  property of \<open>undefined\<close> raises a \<open>TypeError\<close>, naming an undeclared global a
  \<open>ReferenceError\<close>; functions that can raise return a sum
  with the error on the left.
\<close>

datatype js_error = TypeError | ReferenceError

datatype jsnum = Finite real | NaN | PosInfinity | NegInfinity

datatype jsvalue = JSUndefined | JSBool bool | JSString string | JSNumber jsnum

text \<open>\<open>a / b\<close> on finite operands.\<close>

definition js_div :: "real \<Rightarrow> real \<Rightarrow> jsnum" where
  "js_div a b =
     (if b \<noteq> 0 then Finite (a / b)
      else if a = 0 then NaN
      else if 0 < a then PosInfinity else NegInfinity)"

text \<open>\<open>x * c\<close> with a finite right operand.\<close>

fun js_times :: "jsnum \<Rightarrow> real \<Rightarrow> jsnum" where
  "js_times (Finite a) c = Finite (a * c)"
| "js_times NaN c = NaN"
| "js_times PosInfinity c = (if c = 0 then NaN else if 0 < c then PosInfinity else NegInfinity)"
| "js_times NegInfinity c = (if c = 0 then NaN else if 0 < c then NegInfinity else PosInfinity)"

fun Math_min :: "jsnum \<Rightarrow> jsnum \<Rightarrow> jsnum" where
  "Math_min NaN y = NaN"
| "Math_min x NaN = NaN"
| "Math_min NegInfinity y = NegInfinity"
| "Math_min x NegInfinity = NegInfinity"
| "Math_min PosInfinity y = y"
| "Math_min x PosInfinity = x"
| "Math_min (Finite a) (Finite b) = Finite (min a b)"

fun Math_max :: "jsnum \<Rightarrow> jsnum \<Rightarrow> jsnum" where
  "Math_max NaN y = NaN"
| "Math_max x NaN = NaN"
| "Math_max PosInfinity y = PosInfinity"
| "Math_max x PosInfinity = PosInfinity"
| "Math_max NegInfinity y = y"
| "Math_max x NegInfinity = x"
| "Math_max (Finite a) (Finite b) = Finite (max a b)"

text \<open>\<open>xs[i]\<close>: \<open>None\<close> stands for \<open>undefined\<close>, which an out-of-range read returns.\<close>

definition js_index :: "'a list \<Rightarrow> nat \<Rightarrow> 'a option" where
  "js_index xs i = (if i < length xs then Some (xs ! i) else None)"

text \<open>
  Truthiness of a value that is \<open>null\<close> or a number obtained from \<open>Date.now()\<close>:
  \<open>null\<close> and \<open>0\<close> are falsy.
\<close>

fun truthy :: "int option \<Rightarrow> bool" where
  "truthy None = False"
| "truthy (Some t) = (t \<noteq> 0)"

section \<open>State of the login page (LoginPage.jsx)\<close>

text \<open>
  A keystroke is \<open>{ key: e.key, timestamp }\<close> with \<open>timestamp = Date.now()\<close>, an integer
  number of milliseconds.
\<close>

record keystroke =
  key :: string
  timestamp :: int

text \<open>
  \<open>loginMetrics\<close> as initialised by \<open>useState\<close>. The mount effect adds a further key
  \<open>browser_tab_count\<close>, absent (\<open>None\<close>) until then.
\<close>

record loginMetrics =
  password_length :: nat
  typing_start :: "int option"
  typing_end :: "int option"
  keystrokes :: "keystroke list"
  caps_lock_detected :: bool
  browser_tabs :: int
  keyboard_language :: string
  browser_tab_count :: "int option"

section \<open>Typing speed (calculateTypingSpeed)\<close>

text \<open>\<open>Math.max(30, Math.min(150, (words / duration) * 60))\<close> with \<open>words = password.length / 5\<close>.\<close>

definition clampedWpm :: "string \<Rightarrow> real \<Rightarrow> jsnum" where
  "clampedWpm password duration =
     (let words = real (length password) / 5;
          wpm = js_times (js_div words duration) 60
      in Math_max (Finite 30) (Math_min (Finite 150) wpm))"

definition calculateTypingSpeed :: "loginMetrics \<Rightarrow> string \<Rightarrow> js_error + jsnum" where
  "calculateTypingSpeed m password =
     (if length (keystrokes m) < 2 then
        (if truthy (typing_start m) \<and> truthy (typing_end m) then
           (case (typing_start m, typing_end m) of
              (Some s, Some e) \<Rightarrow>
                (let duration = real_of_int (e - s) / 1000
                 in if 0 < duration then Inr (clampedWpm password duration)
                    else Inr (Finite 60))
            | _ \<Rightarrow> Inr (Finite 60))
         else Inr (Finite 60))
      else
        (let ks = keystrokes m in
         if length ks < 2 then Inr (Finite 60)
         else
           (case (js_index ks 0, js_index ks (length ks - 1)) of
              (Some firstKey, Some lastKey) \<Rightarrow>
                (let duration = real_of_int (timestamp lastKey - timestamp firstKey) / 1000
                 in if duration \<le> 0 then Inr (Finite 60)
                    else Inr (clampedWpm password duration))
            | _ \<Rightarrow> Inl TypeError)))"

text \<open>
  The formula as the specification words it: \<open>words = password_length / 5\<close>,
  \<open>wpm = words / duration * 60\<close>, clamped to \<open>[30, 150]\<close>.
\<close>

definition spec_typing_speed :: "nat \<Rightarrow> real \<Rightarrow> real" where
  "spec_typing_speed len duration_seconds =
     max 30 (min 150 ((real len / 5) / duration_seconds * 60))"

text \<open>
  The start/end pair as the specification words it: the duration in seconds when both
  timestamps are available and the pair is not degenerate.
\<close>

definition spec_pair_duration :: "loginMetrics \<Rightarrow> real option" where
  "spec_pair_duration m =
     (case (typing_start m, typing_end m) of
        (Some s, Some e) \<Rightarrow>
          (if s \<noteq> 0 \<and> e \<noteq> 0 \<and> s < e then Some (real_of_int (e - s) / 1000) else None)
      | _ \<Rightarrow> None)"

definition spec_pair_fallback :: "loginMetrics \<Rightarrow> string \<Rightarrow> jsnum" where
  "spec_pair_fallback m password =
     (case spec_pair_duration m of
        Some d \<Rightarrow> Finite (spec_typing_speed (length password) d)
      | None \<Rightarrow> Finite 60)"

text \<open>Two key presses in the same millisecond, with a usable start/end pair one second apart.\<close>

definition same_millisecond_metrics :: loginMetrics where
  "same_millisecond_metrics =
     \<lparr>password_length = 10, typing_start = Some 1000, typing_end = Some 2000,
      keystrokes = [\<lparr>key = ''a'', timestamp = 1000\<rparr>, \<lparr>key = ''b'', timestamp = 1000\<rparr>],
      caps_lock_detected = False, browser_tabs = 1, keyboard_language = ''EN'',
      browser_tab_count = None\<rparr>"

text \<open>The scenario of the specification: five key presses 150 ms apart.\<close>

definition scenario_metrics :: loginMetrics where
  "scenario_metrics =
     \<lparr>password_length = 10, typing_start = None, typing_end = None,
      keystrokes = [\<lparr>key = ''a'', timestamp = 0\<rparr>, \<lparr>key = ''b'', timestamp = 150\<rparr>,
                    \<lparr>key = ''c'', timestamp = 300\<rparr>, \<lparr>key = ''d'', timestamp = 450\<rparr>,
                    \<lparr>key = ''e'', timestamp = 600\<rparr>],
      caps_lock_detected = False, browser_tabs = 1, keyboard_language = ''EN'',
      browser_tab_count = None\<rparr>"

text \<open>No key press, only a start/end pair two seconds apart.\<close>

definition pasted_metrics :: loginMetrics where
  "pasted_metrics =
     \<lparr>password_length = 10, typing_start = Some 5000, typing_end = Some 7000,
      keystrokes = [],
      caps_lock_detected = False, browser_tabs = 1, keyboard_language = ''EN'',
      browser_tab_count = None\<rparr>"

section \<open>Challenge sequence (generateChallengeSequence)\<close>

text \<open>
  \<open>intervals.slice(0, 10).join("-")\<close> turns each number into its decimal string. The
  conversion is written for any integer; the values that reach it are single digits.
\<close>

definition digit_chars :: string where
  "digit_chars = ''0123456789''"

function digits_of_nat :: "nat \<Rightarrow> string" where
  "digits_of_nat n =
     (if n < 10 then [digit_chars ! n]
      else digits_of_nat (n div 10) @ [digit_chars ! (n mod 10)])"
  by pat_completeness auto
termination
  by (relation "measure (\<lambda>n. n)") auto

declare digits_of_nat.simps [simp del]

definition js_toString :: "int \<Rightarrow> string" where
  "js_toString i = (if i < 0 then CHR ''-'' # digits_of_nat (nat (- i)) else digits_of_nat (nat i))"

fun js_join :: "string \<Rightarrow> string list \<Rightarrow> string" where
  "js_join sep [] = []"
| "js_join sep [x] = x"
| "js_join sep (x # y # ys) = x @ sep @ js_join sep (y # ys)"

text \<open>
  The \<open>for\<close> loop of \<open>generateChallengeSequence\<close>: \<open>i\<close> runs from 1 while
  \<open>i < keystrokes.length\<close>, and each round pushes
  \<open>Math.min(Math.max(Math.floor(interval / 50), 1), 9)\<close>.
\<close>

function challenge_loop :: "keystroke list \<Rightarrow> nat \<Rightarrow> int list \<Rightarrow> js_error + int list" where
  "challenge_loop ks i intervals =
     (if i < length ks then
        (case (js_index ks i, js_index ks (i - 1)) of
           (Some cur, Some prev) \<Rightarrow>
             (let interval = timestamp cur - timestamp prev;
                  normalized = min (max \<lfloor>real_of_int interval / 50\<rfloor> 1) 9
              in challenge_loop ks (i + 1) (intervals @ [normalized]))
         | _ \<Rightarrow> Inl TypeError)
      else Inr intervals)"
  by pat_completeness auto
termination
  by (relation "measure (\<lambda>(ks, i, intervals). length ks - i)") auto

declare challenge_loop.simps [simp del]

definition generateChallengeSequence :: "loginMetrics \<Rightarrow> js_error + string" where
  "generateChallengeSequence m =
     (if length (keystrokes m) < 2 then Inr []
      else
        (case challenge_loop (keystrokes m) 1 [] of
           Inl e \<Rightarrow> Inl e
         | Inr intervals \<Rightarrow> Inr (js_join ''-'' (map js_toString (take 10 intervals)))))"

text \<open>
  The sequence as the specification words it: \<open>clamp(floor(interval_ms / 50), 1, 9)\<close> over
  consecutive timestamp pairs, at most the first 10 values.
\<close>

definition spec_clamp :: "int \<Rightarrow> int \<Rightarrow> int \<Rightarrow> int" where
  "spec_clamp x lo hi = max lo (min hi x)"

definition spec_challenge_tokens :: "keystroke list \<Rightarrow> int list" where
  "spec_challenge_tokens ks =
     take 10 (map (\<lambda>(a, b). spec_clamp \<lfloor>real_of_int (timestamp b - timestamp a) / 50\<rfloor> 1 9)
                  (zip ks (tl ks)))"

section \<open>Events and handlers of the login page\<close>

text \<open>
  What \<open>detectCapsLock\<close> reads of a keyboard event: \<open>e.key\<close>, the result of
  \<open>e.getModifierState("CapsLock")\<close> (\<open>None\<close> when the event has no such method),
  \<open>e.keyCode || e.which\<close> and \<open>e.shiftKey\<close>.
\<close>

record keyEvent =
  event_key :: string
  getModifierState :: "bool option"
  keyCode :: nat
  shiftKey :: bool

text \<open>
  \<open>String.fromCharCode\<close> keeps the low 16 bits of the code; comparing the one-unit string
  with \<open>"A"\<close>, \<open>"Z"\<close>, \<open>"a"\<close>, \<open>"z"\<close> compares that code with 65, 90, 97, 122.
\<close>

definition detectCapsLock :: "keyEvent \<Rightarrow> loginMetrics \<Rightarrow> loginMetrics" where
  "detectCapsLock e m =
     (let m1 = (case getModifierState e of
                  Some isCapsLock \<Rightarrow> m\<lparr>caps_lock_detected := isCapsLock\<rparr>
                | None \<Rightarrow> m);
          code = keyCode e mod 65536
      in if 65 \<le> code \<and> code \<le> 90 \<and> \<not> shiftKey e then m1\<lparr>caps_lock_detected := True\<rparr>
         else if 97 \<le> code \<and> code \<le> 122 \<and> shiftKey e then m1\<lparr>caps_lock_detected := False\<rparr>
         else m1)"

text \<open>
  \<open>navigator.language\<close> and \<open>navigator.userLanguage\<close>, each a string or \<open>undefined\<close>.
\<close>

record navigatorEnv =
  language :: "string option"
  userLanguage :: "string option"

text \<open>\<open>a || b\<close> for \<open>a\<close> a string or \<open>undefined\<close>: the empty string is falsy.\<close>

definition js_or :: "string option \<Rightarrow> string \<Rightarrow> string" where
  "js_or a b = (case a of Some s \<Rightarrow> if s = [] then b else s | None \<Rightarrow> b)"

text \<open>\<open>toUpperCase\<close> on the ASCII letters, which is what a language tag holds.\<close>

definition toUpperCase :: "string \<Rightarrow> string" where
  "toUpperCase s =
     map (\<lambda>c. if 97 \<le> (of_char c :: nat) \<and> (of_char c :: nat) \<le> 122
               then char_of ((of_char c :: nat) - 32) else c) s"

text \<open>
  \<open>detectKeyboardLanguage\<close>; the argument is \<open>None\<close> when reading the navigator throws,
  which the \<open>catch\<close> turns into \<open>"EN"\<close>. \<open>lang.split("-")[0]\<close> is the text before the
  first dash.
\<close>

definition detectKeyboardLanguage :: "navigatorEnv option \<Rightarrow> string" where
  "detectKeyboardLanguage nav =
     (case nav of
        None \<Rightarrow> ''EN''
      | Some n \<Rightarrow>
          (let lang = js_or (language n) (js_or (userLanguage n) ''en-US'');
               langCode = toUpperCase (takeWhile (\<lambda>c. c \<noteq> CHR ''-'') lang)
           in if langCode = ''EN'' then ''EN'' else langCode))"

text \<open>
  \<open>parseInt(s, 10)\<close>: leading white space is skipped, a sign is read, then the longest
  run of decimal digits; \<open>None\<close> stands for \<open>NaN\<close>.
\<close>

definition is_space :: "char \<Rightarrow> bool" where
  "is_space c = ((of_char c :: nat) = 32 \<or> (9 \<le> (of_char c :: nat) \<and> (of_char c :: nat) \<le> 13))"

definition is_digit :: "char \<Rightarrow> bool" where
  "is_digit c = (48 \<le> (of_char c :: nat) \<and> (of_char c :: nat) \<le> 57)"

definition digits_value :: "string \<Rightarrow> nat" where
  "digits_value ds = foldl (\<lambda>acc c. acc * 10 + ((of_char c :: nat) - 48)) 0 ds"

definition parseInt :: "string \<Rightarrow> int option" where
  "parseInt s =
     (let t = dropWhile is_space s;
          negative = (case t of c # r \<Rightarrow> c = CHR ''-'' | [] \<Rightarrow> False);
          u = (case t of c # r \<Rightarrow> if c = CHR ''-'' \<or> c = CHR ''+'' then r else t | [] \<Rightarrow> []);
          ds = takeWhile is_digit u
      in if ds = [] then None
         else Some (if negative then - int (digits_value ds) else int (digits_value ds)))"

text \<open>
  \<open>detectBrowserTabs\<close>; the argument is \<open>None\<close> when local storage is missing or reading
  it throws, \<open>Some None\<close> when \<open>getItem("browserTabCount")\<close> is \<open>null\<close>.
\<close>

definition detectBrowserTabs :: "string option option \<Rightarrow> int" where
  "detectBrowserTabs storage =
     (case storage of
        None \<Rightarrow> 1
      | Some None \<Rightarrow> 1
      | Some (Some tabCount) \<Rightarrow>
          (if tabCount = [] then 1
           else (case parseInt tabCount of
                   Some count \<Rightarrow> if 0 < count then count else 1
                 | None \<Rightarrow> 1)))"

text \<open>
  The component state: the \<open>username\<close>, \<open>password\<close> and \<open>loginMetrics\<close> state variables
  and the \<open>loginAttemptsRef\<close> counter.
\<close>

record pageState =
  username :: string
  password :: string
  metrics :: loginMetrics
  loginAttemptsRef :: nat

definition initialState :: pageState where
  "initialState =
     \<lparr>username = [], password = [],
      metrics = \<lparr>password_length = 0, typing_start = None, typing_end = None,
                 keystrokes = [], caps_lock_detected = False, browser_tabs = 1,
                 keyboard_language = ''EN'', browser_tab_count = None\<rparr>,
      loginAttemptsRef = 0\<rparr>"

text \<open>
  The mount effect stores the detected language under \<open>keyboard_language\<close> and the
  detected tab count under \<open>browser_tab_count\<close>.
\<close>

definition mountEffect :: "navigatorEnv option \<Rightarrow> string option option \<Rightarrow> pageState \<Rightarrow> pageState" where
  "mountEffect nav storage st =
     st\<lparr>metrics := (metrics st)\<lparr>keyboard_language := detectKeyboardLanguage nav,
                                 browser_tab_count := Some (detectBrowserTabs storage)\<rparr>\<rparr>"

definition handlePasswordKeyDown :: "keyEvent \<Rightarrow> int \<Rightarrow> pageState \<Rightarrow> pageState" where
  "handlePasswordKeyDown e now st =
     (let m = detectCapsLock e (metrics st)
      in st\<lparr>metrics := m\<lparr>keystrokes := keystrokes m @ [\<lparr>key = event_key e, timestamp = now\<rparr>]\<rparr>\<rparr>)"

definition handlePasswordChange :: "string \<Rightarrow> int \<Rightarrow> pageState \<Rightarrow> pageState" where
  "handlePasswordChange new_value now st =
     (let m = metrics st;
          m1 = (if truthy (typing_start m) then m else m\<lparr>typing_start := Some now\<rparr>)
      in st\<lparr>password := new_value, metrics := m1\<lparr>password_length := length new_value\<rparr>\<rparr>)"

definition handlePasswordKeyUp :: "keyEvent \<Rightarrow> pageState \<Rightarrow> pageState" where
  "handlePasswordKeyUp e st = st\<lparr>metrics := detectCapsLock e (metrics st)\<rparr>"

definition handlePasswordBlur :: "int \<Rightarrow> pageState \<Rightarrow> pageState" where
  "handlePasswordBlur now st =
     (if truthy (typing_start (metrics st))
      then st\<lparr>metrics := (metrics st)\<lparr>typing_end := Some now\<rparr>\<rparr>
      else st)"

text \<open>\<open>analyzePassword\<close>: four character-class tests and the length.\<close>

record passwordAnalysis =
  analysis_length :: nat
  has_special :: bool
  has_numbers :: bool
  has_upper :: bool
  has_lower :: bool

definition special_characters :: string where
  "special_characters = ''!@#$%^&*()_+-=[]{}|;:,.<>?''"

definition analyzePassword :: "string \<Rightarrow> passwordAnalysis" where
  "analyzePassword pw =
     \<lparr>analysis_length = length pw,
      has_special = list_ex (\<lambda>c. c \<in> set special_characters) pw,
      has_numbers = list_ex is_digit pw,
      has_upper = list_ex (\<lambda>c. 65 \<le> (of_char c :: nat) \<and> (of_char c :: nat) \<le> 90) pw,
      has_lower = list_ex (\<lambda>c. 97 \<le> (of_char c :: nat) \<and> (of_char c :: nat) \<le> 122) pw\<rparr>"

text \<open>The flags travel as the strings \<open>"yes"\<close> and \<open>"no"\<close>.\<close>

definition yes_no :: "bool \<Rightarrow> jsvalue" where
  "yes_no b = JSString (if b then ''yes'' else ''no'')"

text \<open>
  \<open>handleSubmit\<close> up to the call of \<open>login\<close>: the counter is incremented before the
  \<open>try\<close> block; inside it the typing speed, the password analysis, the challenge
  sequence and the time zone are computed and the object \<open>zeroTrustMetrics\<close> is built, an
  ordered list of keys and values. The argument is \<open>None\<close> when \<open>Intl\<close> is not
  available, \<open>Some None\<close> when the resolved options carry no time zone. An exception
  leaves the \<open>try\<close> block before \<open>login\<close> is called.
\<close>

definition handleSubmit ::
    "string option option \<Rightarrow> pageState \<Rightarrow> pageState \<times> (js_error + (string \<times> jsvalue) list)" where
  "handleSubmit timeZone st =
     (let st1 = st\<lparr>loginAttemptsRef := loginAttemptsRef st + 1\<rparr>;
          m = metrics st1
      in (st1,
          case calculateTypingSpeed m (password st1) of
            Inl err \<Rightarrow> Inl err
          | Inr typingSpeed \<Rightarrow>
              (let analysis = analyzePassword (password st1)
               in case generateChallengeSequence m of
                    Inl err \<Rightarrow> Inl err
                  | Inr challenge \<Rightarrow>
                      (case timeZone of
                         None \<Rightarrow> Inl ReferenceError
                       | Some tz \<Rightarrow>
                           Inr [(''password_length'', JSNumber (Finite (real (analysis_length analysis)))),
                                (''used_special_characters'', yes_no (has_special analysis)),
                                (''keyboard_language'', JSString (keyboard_language m)),
                                (''login_attempts'', JSNumber (Finite (real (loginAttemptsRef st1)))),
                                (''was_capslock_on'', yes_no (caps_lock_detected m)),
                                (''browser_tab_count'', JSNumber (Finite (real_of_int (browser_tabs m)))),
                                (''challenge_sequence'', JSString challenge),
                                (''timezone'', JSString (js_or tz ''UTC+0'')),
                                (''typing_speed_wpm'', JSNumber typingSpeed)]))))"

text \<open>
  What can happen to the mounted page. A submission yields the payload handed to
  \<open>login\<close>, if the \<open>try\<close> block got that far.
\<close>

datatype event =
    UsernameChange string
  | UsernameKeyDown keyEvent
  | PasswordKeyDown keyEvent int
  | PasswordChange string int
  | PasswordKeyUp keyEvent
  | PasswordBlur int
  | Submit "string option option"

fun step :: "pageState \<Rightarrow> event \<Rightarrow> pageState \<times> (string \<times> jsvalue) list option" where
  "step st (UsernameChange v) = (st\<lparr>username := v\<rparr>, None)"
| "step st (UsernameKeyDown e) = (st\<lparr>metrics := detectCapsLock e (metrics st)\<rparr>, None)"
| "step st (PasswordKeyDown e now) = (handlePasswordKeyDown e now st, None)"
| "step st (PasswordChange v now) = (handlePasswordChange v now st, None)"
| "step st (PasswordKeyUp e) = (handlePasswordKeyUp e st, None)"
| "step st (PasswordBlur now) = (handlePasswordBlur now st, None)"
| "step st (Submit tz) =
     (case handleSubmit tz st of
        (st1, Inr payload) \<Rightarrow> (st1, Some payload)
      | (st1, Inl err) \<Rightarrow> (st1, None))"

text \<open>The payloads sent during a run of events, in order.\<close>

fun run :: "pageState \<Rightarrow> event list \<Rightarrow> (string \<times> jsvalue) list list" where
  "run st [] = []"
| "run st (ev # evs) =
     (case step st ev of
        (st1, Some payload) \<Rightarrow> payload # run st1 evs
      | (st1, None) \<Rightarrow> run st1 evs)"

text \<open>A client session: the page is mounted, then events arrive.\<close>

definition session ::
    "navigatorEnv option \<Rightarrow> string option option \<Rightarrow> event list \<Rightarrow> (string \<times> jsvalue) list list" where
  "session nav storage evs = run (mountEffect nav storage initialState) evs"

text \<open>The nine keys of \<open>zeroTrustMetrics\<close>.\<close>

definition payload_fields :: "string list" where
  "payload_fields =
     [''password_length'', ''used_special_characters'', ''keyboard_language'',
      ''login_attempts'', ''was_capslock_on'', ''browser_tab_count'',
      ''challenge_sequence'', ''timezone'', ''typing_speed_wpm'']"

text \<open>The typing of the flags as the specification words it: a boolean.\<close>

definition spec_is_boolean :: "jsvalue option \<Rightarrow> bool" where
  "spec_is_boolean v = (case v of Some (JSBool b) \<Rightarrow> True | _ \<Rightarrow> False)"

text \<open>
  A session in a French locale: the password \<open>p@ss\<close> is entered and submitted while the
  platform reports no time zone.
\<close>

definition example_session :: "(string \<times> jsvalue) list list" where
  "example_session =
     session (Some \<lparr>language = Some ''fr-FR'', userLanguage = None\<rparr>) (Some (Some ''3''))
       [PasswordChange ''p@ss'' 1000, Submit (Some None), Submit None,
        Submit (Some (Some ''Europe/Paris''))]"

text \<open>
  The shape of a payload sent by a page whose detected language is \<open>lang\<close>: all nine keys
  in order, the two flags as \<open>"yes"\<close> or \<open>"no"\<close>, integers where integers are expected, a
  typing speed in \<open>[30, 150]\<close>.
\<close>

definition payload_shape :: "string \<Rightarrow> (string \<times> jsvalue) list \<Rightarrow> bool" where
  "payload_shape lang p =
     (map fst p = payload_fields
      \<and> (\<exists>n::nat. map_of p ''password_length'' = Some (JSNumber (Finite (real n))))
      \<and> (map_of p ''used_special_characters'' = Some (JSString ''yes'')
           \<or> map_of p ''used_special_characters'' = Some (JSString ''no''))
      \<and> (map_of p ''was_capslock_on'' = Some (JSString ''yes'')
           \<or> map_of p ''was_capslock_on'' = Some (JSString ''no''))
      \<and> map_of p ''keyboard_language'' = Some (JSString lang)
      \<and> (\<exists>k::int. 1 \<le> k \<and> map_of p ''browser_tab_count'' = Some (JSNumber (Finite (real_of_int k))))
      \<and> (\<exists>n::nat. 1 \<le> n \<and> map_of p ''login_attempts'' = Some (JSNumber (Finite (real n))))
      \<and> (\<exists>s. map_of p ''challenge_sequence'' = Some (JSString s))
      \<and> (\<exists>z. z \<noteq> [] \<and> map_of p ''timezone'' = Some (JSString z))
      \<and> (\<exists>v. 30 \<le> v \<and> v \<le> 150 \<and> map_of p ''typing_speed_wpm'' = Some (JSNumber (Finite v))))"

section \<open>The risk engine behind the login endpoint\<close>

text \<open>
  The login page posts its payload to \<open>/api/auth/login\<close> and the events panel reads
  \<open>/api/auth/realtime/events\<close>. The service that answers them is not among the source
  files; only its callers are. Its parts are therefore written down from the
  specification, each marked as such.
\<close>

text \<open>Modelled from the spec: the \<open>risk_level\<close> enumeration of the RiskAssessment, whose
  order is low, then medium, then high. The backend that defines it is missing.\<close>

datatype risk_level = Low | Medium | High

fun level_rank :: "risk_level \<Rightarrow> nat" where
  "level_rank Low = 0"
| "level_rank Medium = 1"
| "level_rank High = 2"

text \<open>Modelled from the spec: the level mapping of the Risk Scorer, whose backend code is
  missing: \<open>score < 0.34\<close> gives low, \<open>0.34 \<le> score < 0.7\<close> gives medium, \<open>score \<ge> 0.7\<close>
  gives high.\<close>

definition risk_level_of :: "real \<Rightarrow> risk_level" where
  "risk_level_of score =
     (if score < 0.34 then Low else if score < 0.7 then Medium else High)"

text \<open>Modelled from the spec: the FeaturePayload of the data model as the scorer receives
  it; the backend's request schema is missing.\<close>

record FeaturePayload =
  fp_password_length :: int
  fp_used_special_characters :: bool
  fp_keyboard_language :: string
  fp_login_attempts :: int
  fp_was_capslock_on :: bool
  fp_browser_tab_count :: int
  fp_challenge_sequence :: string
  fp_timezone :: string
  fp_typing_speed_wpm :: real

text \<open>Modelled from the spec: the RiskAssessment of the data model; the backend's response
  schema is missing.\<close>

record RiskAssessment =
  risk_score :: real
  risk_level :: risk_level
  reasons :: "string list"

text \<open>Modelled from the spec: a heuristic override of the Risk Scorer, whose backend code is
  missing. A heuristic fires on a payload (the per-user history it consults is fixed
  beforehand), acts as a floor on the score and contributes one reason code.\<close>

record heuristic =
  trigger :: "FeaturePayload \<Rightarrow> bool"
  floor_score :: real
  reason_code :: string

text \<open>Modelled from the spec: the bot-like typing override of the Risk Scorer, whose
  backend code is missing: \<open>typing_speed_wpm \<ge> 150\<close> forces the score up to a floor. The
  specification says "at least high / near 1.0" and gives no number, so the floor is a
  parameter.\<close>

definition unusually_fast_typing :: "real \<Rightarrow> heuristic" where
  "unusually_fast_typing fl =
     \<lparr>trigger = (\<lambda>p. 150 \<le> fp_typing_speed_wpm p), floor_score = fl,
      reason_code = ''unusually_fast_typing''\<rparr>"

text \<open>Modelled from the spec: the stage \<open>heuristic_adjustments\<close> of the scoring pipeline
  \<open>base_score, heuristic_adjustments, clamp, level_mapping\<close>, whose backend code is
  missing. Each heuristic that fires raises the score to its floor.\<close>

definition apply_heuristics :: "heuristic list \<Rightarrow> FeaturePayload \<Rightarrow> real \<Rightarrow> real" where
  "apply_heuristics hs p base =
     fold (\<lambda>h s. if trigger h p then max s (floor_score h) else s) hs base"

text \<open>Modelled from the spec: the stage \<open>clamp\<close> of the scoring pipeline, whose backend code
  is missing; a risk score lies in \<open>[0, 1]\<close>.\<close>

definition clamp_score :: "real \<Rightarrow> real" where
  "clamp_score s = max 0 (min 1 s)"

text \<open>Modelled from the spec: the Risk Scorer, whose backend code is missing. The classifier
  is \<open>None\<close> when no trained model is available; scoring then starts from 0, so that the
  heuristics alone decide, and the reasons carry \<open>heuristic_fallback\<close>. The reasons are
  an ordered set: one code per heuristic that fired, without repetition.\<close>

definition risk_scorer ::
    "(FeaturePayload \<Rightarrow> real) option \<Rightarrow> heuristic list \<Rightarrow> FeaturePayload \<Rightarrow> RiskAssessment" where
  "risk_scorer classifier hs p =
     (let base = (case classifier of Some model \<Rightarrow> model p | None \<Rightarrow> 0);
          score = clamp_score (apply_heuristics hs p base);
          fallback = (case classifier of Some model \<Rightarrow> [] | None \<Rightarrow> [''heuristic_fallback''])
      in \<lparr>risk_score = score, risk_level = risk_level_of score,
          reasons = remdups (fallback @ map reason_code (filter (\<lambda>h. trigger h p) hs))\<rparr>)"

text \<open>Modelled from the spec: the Access Decision Policy, whose backend code is missing:
  low and medium allow, high denies.\<close>

datatype outcome = Allowed | Denied

fun access_decision :: "risk_level \<Rightarrow> outcome" where
  "access_decision Low = Allowed"
| "access_decision Medium = Allowed"
| "access_decision High = Denied"

text \<open>Modelled from the spec: the LoginEvent of the data model; the backend's table is
  missing. The events panel reads \<open>id\<close>, \<open>username\<close>, \<open>created_at\<close> and the assessment of
  each item.\<close>

record LoginEvent =
  event_id :: nat
  event_username :: string
  created_at :: int
  payload :: FeaturePayload
  assessment :: RiskAssessment
  outcome :: outcome

text \<open>Modelled from the spec: the Event Store's \<open>record\<close>, whose backend code is missing.
  The store is the list of events in insertion order; each call appends one row under
  a fresh surrogate key larger than every key in use.\<close>

definition next_id :: "LoginEvent list \<Rightarrow> nat" where
  "next_id store = Suc (fold max (map event_id store) 0)"

definition record_event ::
    "LoginEvent list \<Rightarrow> string \<Rightarrow> int \<Rightarrow> FeaturePayload \<Rightarrow> RiskAssessment \<Rightarrow> outcome
       \<Rightarrow> LoginEvent list" where
  "record_event store user now p a out =
     store @ [\<lparr>event_id = next_id store, event_username = user, created_at = now,
               payload = p, assessment = a, outcome = out\<rparr>]"

text \<open>Modelled from the spec: the Event Store's \<open>query_recent(limit, since)\<close>, whose backend
  code is missing: events ordered by \<open>created_at\<close> ascending, filtered to
  \<open>created_at > since\<close> when a cursor is given, capped at \<open>limit\<close>.\<close>

definition query_recent :: "LoginEvent list \<Rightarrow> int option \<Rightarrow> nat \<Rightarrow> LoginEvent list" where
  "query_recent store since limit =
     take limit (sort_key created_at
       (case since of None \<Rightarrow> store | Some s \<Rightarrow> filter (\<lambda>e. s < created_at e) store))"

text \<open>Modelled from the spec: the submission of a login attempt, whose backend code is
  missing. A malformed attempt (\<open>None\<close>) is rejected before scoring and writes nothing.
  Otherwise the attempt is scored, the decision is taken, the event is recorded, and a
  denied attempt is answered with the rejection. The check of the credentials, which the
  specification leaves open, is not part of the model.\<close>

datatype submit_error = MalformedInput | LoginBlocked RiskAssessment

definition submit_login ::
    "(FeaturePayload \<Rightarrow> real) option \<Rightarrow> heuristic list \<Rightarrow> LoginEvent list \<Rightarrow> string \<Rightarrow> int
       \<Rightarrow> FeaturePayload option \<Rightarrow> LoginEvent list \<times> (submit_error + RiskAssessment)" where
  "submit_login classifier hs store user now attempt =
     (case attempt of
        None \<Rightarrow> (store, Inl MalformedInput)
      | Some p \<Rightarrow>
          (let a = risk_scorer classifier hs p;
               out = access_decision (risk_level a);
               store1 = record_event store user now p a out
           in (store1, if out = Denied then Inl (LoginBlocked a) else Inr a)))"

text \<open>A payload typed faster than any person types, and one at an ordinary speed.\<close>

definition fast_payload :: FeaturePayload where
  "fast_payload =
     \<lparr>fp_password_length = 10, fp_used_special_characters = False,
      fp_keyboard_language = ''EN'', fp_login_attempts = 1, fp_was_capslock_on = False,
      fp_browser_tab_count = 1, fp_challenge_sequence = ''3-3-3-3'', fp_timezone = ''UTC'',
      fp_typing_speed_wpm = 160\<rparr>"

definition calm_payload :: FeaturePayload where
  "calm_payload = fast_payload\<lparr>fp_typing_speed_wpm := 60\<rparr>"

section \<open>Real-time events panel (RealtimeEventsPanel.jsx)\<close>

text \<open>
  The updater handed to \<open>setEvents\<close>: the incoming items whose \<open>id\<close> is not found in the
  buffer are put in front of it and the first 50 entries are kept.
\<close>

definition mergeEvents :: "LoginEvent list \<Rightarrow> LoginEvent list \<Rightarrow> LoginEvent list" where
  "mergeEvents items prev =
     (let newEvents = filter (\<lambda>e. find (\<lambda>p. event_id p = event_id e) prev = None) items
      in take 50 (newEvents @ prev))"

text \<open>The panel state: the \<open>events\<close> buffer and \<open>lastUpdate\<close>, a time or \<open>null\<close>.\<close>

record panelState =
  events :: "LoginEvent list"
  lastUpdate :: "int option"

definition initialPanel :: panelState where
  "initialPanel = \<lparr>events = [], lastUpdate = None\<rparr>"

text \<open>
  \<open>loadEvents\<close>. \<open>captured\<close> is the value of \<open>lastUpdate\<close> in the closure that runs,
  \<open>fetch\<close> stands for \<open>getRealtimeEvents\<close> (an error is caught and logged, \<open>None\<close> is a
  response without \<open>items\<close>), \<open>now\<close> and \<open>received\<close> are the clock readings before and
  after the request. Times are milliseconds; the ISO strings exchanged are not modelled.
\<close>

definition loadEvents ::
    "int option \<Rightarrow> (int \<Rightarrow> nat \<Rightarrow> js_error + LoginEvent list option) \<Rightarrow> int \<Rightarrow> int
       \<Rightarrow> panelState \<Rightarrow> panelState" where
  "loadEvents captured fetch now received st =
     (let since = (case captured of Some t \<Rightarrow> t | None \<Rightarrow> now - 60000)
      in case fetch since 20 of
           Inl err \<Rightarrow> st
         | Inr None \<Rightarrow> st
         | Inr (Some items) \<Rightarrow>
             (if 0 < length items
              then st\<lparr>events := mergeEvents items (events st), lastUpdate := Some received\<rparr>
              else st))"

text \<open>
  The panel polls through the interval set up by its mount effect, which keeps the
  \<open>loadEvents\<close> of the first render, where \<open>lastUpdate\<close> is \<open>null\<close>. Each poll meets the
  store as it is at that time; the server answers with \<open>query_recent\<close>.
\<close>

fun panel_run :: "(LoginEvent list \<times> int \<times> int) list \<Rightarrow> panelState \<Rightarrow> panelState" where
  "panel_run [] st = st"
| "panel_run ((store, now, received) # polls) st =
     panel_run polls
       (loadEvents None (\<lambda>since limit. Inr (Some (query_recent store (Some since) limit)))
          now received st)"

text \<open>
  The polling scenario of the specification: two attempts arrive at times 1000 and 2000,
  one denied and one allowed, with no trained model at hand.
\<close>

definition scenario_store :: "LoginEvent list" where
  "scenario_store =
     fst (submit_login None [unusually_fast_typing 0.95]
            (fst (submit_login None [unusually_fast_typing 0.95] [] ''alice'' 1000
                    (Some fast_payload)))
            ''bob'' 2000 (Some calm_payload))"


section \<open>Properties of the typing speed\<close>

lemma clampedWpm_positive:
  assumes "0 < d"
  shows "clampedWpm pw d = Finite (spec_typing_speed (length pw) d)"
  using assms by (simp add: clampedWpm_def js_div_def spec_typing_speed_def Let_def)

lemma spec_typing_speed_bounds:
  "30 \<le> spec_typing_speed n d \<and> spec_typing_speed n d \<le> 150"
  by (simp add: spec_typing_speed_def)

lemma js_index_first: "xs \<noteq> [] \<Longrightarrow> js_index xs 0 = Some (hd xs)"
  by (cases xs) (simp_all add: js_index_def)

lemma js_index_last: "xs \<noteq> [] \<Longrightarrow> js_index xs (length xs - Suc 0) = Some (last xs)"
  by (simp add: js_index_def last_conv_nth)

lemma calculateTypingSpeed_keystrokes:
  assumes "2 \<le> length (keystrokes m)"
  shows "calculateTypingSpeed m pw =
           (if timestamp (last (keystrokes m)) - timestamp (hd (keystrokes m)) \<le> 0
            then Inr (Finite 60)
            else Inr (clampedWpm pw
                   (real_of_int (timestamp (last (keystrokes m)) - timestamp (hd (keystrokes m))) / 1000)))"
proof -
  from assms have ne: "keystrokes m \<noteq> []" by auto
  from assms have "\<not> length (keystrokes m) < 2" by simp
  then show ?thesis
    by (simp add: calculateTypingSpeed_def Let_def js_index_first [OF ne] js_index_last [OF ne])
qed

lemma calculateTypingSpeed_few_keystrokes:
  assumes "length (keystrokes m) < 2"
  shows "calculateTypingSpeed m pw = Inr (spec_pair_fallback m pw)"
proof (cases "typing_start m")
  case None
  with assms show ?thesis
    by (simp add: calculateTypingSpeed_def spec_pair_fallback_def spec_pair_duration_def)
next
  case s: (Some s)
  show ?thesis
  proof (cases "typing_end m")
    case None
    with assms s show ?thesis
      by (simp add: calculateTypingSpeed_def spec_pair_fallback_def spec_pair_duration_def)
  next
    case e: (Some e)
    show ?thesis
    proof (cases "s \<noteq> 0 \<and> e \<noteq> 0 \<and> s < e")
      case True
      then have "0 < real_of_int (e - s) / 1000" by simp
      with assms s e True show ?thesis
        by (simp add: calculateTypingSpeed_def spec_pair_fallback_def spec_pair_duration_def
            clampedWpm_positive Let_def)
    next
      case False
      with assms s e show ?thesis
        by (auto simp add: calculateTypingSpeed_def spec_pair_fallback_def spec_pair_duration_def
            Let_def)
    qed
  qed
qed

text \<open>
  Claim C2. When the keystroke list has a strictly positive first-to-last duration, the
  typing speed is \<open>(password_length / 5) / duration_seconds * 60\<close> clamped to \<open>[30, 150]\<close>,
  for a password of any length, and so lies in \<open>[30, 150]\<close>.
\<close>

theorem typing_speed_keystroke_formula:
  assumes "keystrokes m \<noteq> []"
    and "0 < timestamp (last (keystrokes m)) - timestamp (hd (keystrokes m))"
  shows "calculateTypingSpeed m pw =
           Inr (Finite (spec_typing_speed (length pw)
             (real_of_int (timestamp (last (keystrokes m)) - timestamp (hd (keystrokes m))) / 1000)))
         \<and> 30 \<le> spec_typing_speed (length pw)
             (real_of_int (timestamp (last (keystrokes m)) - timestamp (hd (keystrokes m))) / 1000)
         \<and> spec_typing_speed (length pw)
             (real_of_int (timestamp (last (keystrokes m)) - timestamp (hd (keystrokes m))) / 1000) \<le> 150"
proof -
  have two: "2 \<le> length (keystrokes m)"
  proof (cases "keystrokes m")
    case Nil
    with assms(1) show ?thesis by simp
  next
    case (Cons k ks)
    with assms(2) have "ks \<noteq> []" by auto
    with Cons show ?thesis by (cases ks) simp_all
  qed
  let ?d = "real_of_int (timestamp (last (keystrokes m)) - timestamp (hd (keystrokes m))) / 1000"
  from assms(2) have pos: "0 < ?d" by simp
  from assms(2) have "\<not> timestamp (last (keystrokes m)) - timestamp (hd (keystrokes m)) \<le> 0"
    by simp
  then have "calculateTypingSpeed m pw = Inr (clampedWpm pw ?d)"
    using calculateTypingSpeed_keystrokes [OF two, of pw] by simp
  then show ?thesis
    using clampedWpm_positive [OF pos, of pw] spec_typing_speed_bounds by simp
qed

theorem typing_speed_keystroke_formula_witness:
  "keystrokes scenario_metrics \<noteq> []
   \<and> 0 < timestamp (last (keystrokes scenario_metrics)) - timestamp (hd (keystrokes scenario_metrics))
   \<and> calculateTypingSpeed scenario_metrics ''abcdefghij'' = Inr (Finite 150)"
  using typing_speed_keystroke_formula [of scenario_metrics "''abcdefghij''"]
  by (simp add: scenario_metrics_def spec_typing_speed_def)

text \<open>
  Claim C4, as the code has it. With fewer than two key presses the computation falls back
  to the (typing_start, typing_end) pair with the same formula and returns 60 when the
  pair is unavailable or degenerate. With two or more key presses whose first-to-last
  duration is not positive it returns 60 and does not consult the pair.
\<close>

theorem typing_speed_fallback:
  "(length (keystrokes m) < 2 \<longrightarrow>
      calculateTypingSpeed m pw = Inr (spec_pair_fallback m pw))
   \<and> (2 \<le> length (keystrokes m)
        \<and> timestamp (last (keystrokes m)) - timestamp (hd (keystrokes m)) \<le> 0 \<longrightarrow>
      calculateTypingSpeed m pw = Inr (Finite 60))"
  using calculateTypingSpeed_few_keystrokes [of m pw]
    calculateTypingSpeed_keystrokes [of m pw]
  by simp

theorem typing_speed_fallback_witness:
  "length (keystrokes pasted_metrics) < 2
   \<and> calculateTypingSpeed pasted_metrics ''abcdefghij'' = Inr (Finite 60)
   \<and> calculateTypingSpeed (pasted_metrics\<lparr>typing_end := Some 6000\<rparr>) ''abcdefghij'' = Inr (Finite 120)
   \<and> calculateTypingSpeed (pasted_metrics\<lparr>typing_end := None\<rparr>) ''abcdefghij'' = Inr (Finite 60)
   \<and> 2 \<le> length (keystrokes same_millisecond_metrics)
   \<and> timestamp (last (keystrokes same_millisecond_metrics))
       - timestamp (hd (keystrokes same_millisecond_metrics)) \<le> 0
   \<and> calculateTypingSpeed same_millisecond_metrics ''abcdefghij'' = Inr (Finite 60)"
  using typing_speed_fallback [of pasted_metrics "''abcdefghij''"]
    typing_speed_fallback [of "pasted_metrics\<lparr>typing_end := Some 6000\<rparr>" "''abcdefghij''"]
    typing_speed_fallback [of "pasted_metrics\<lparr>typing_end := None\<rparr>" "''abcdefghij''"]
    typing_speed_fallback [of same_millisecond_metrics "''abcdefghij''"]
  by (simp add: pasted_metrics_def same_millisecond_metrics_def spec_pair_fallback_def
      spec_pair_duration_def spec_typing_speed_def)

text \<open>
  Claim C4 as stated fails: two key presses in the same millisecond give a keystroke
  duration of 0; the start/end pair is one second apart and would give 120, and the code
  returns the default 60.
\<close>

theorem typing_speed_fallback_counterexample:
  "2 \<le> length (keystrokes same_millisecond_metrics)
   \<and> timestamp (last (keystrokes same_millisecond_metrics))
       - timestamp (hd (keystrokes same_millisecond_metrics)) \<le> 0
   \<and> spec_pair_fallback same_millisecond_metrics ''abcdefghij'' = Finite 120
   \<and> calculateTypingSpeed same_millisecond_metrics ''abcdefghij'' = Inr (Finite 60)
   \<and> calculateTypingSpeed same_millisecond_metrics ''abcdefghij''
       \<noteq> Inr (spec_pair_fallback same_millisecond_metrics ''abcdefghij'')"
  by (simp add: same_millisecond_metrics_def spec_pair_fallback_def spec_pair_duration_def
      spec_typing_speed_def calculateTypingSpeed_def js_index_def)

lemma calculateTypingSpeed_finite:
  "\<exists>v. calculateTypingSpeed m pw = Inr (Finite v) \<and> 30 \<le> v \<and> v \<le> 150"
proof (cases "length (keystrokes m) < 2")
  case True
  then have "calculateTypingSpeed m pw = Inr (spec_pair_fallback m pw)"
    by (rule calculateTypingSpeed_few_keystrokes)
  then show ?thesis
    using spec_typing_speed_bounds
    by (auto simp add: spec_pair_fallback_def split: option.splits)
next
  case False
  then have two: "2 \<le> length (keystrokes m)" by simp
  let ?dt = "timestamp (last (keystrokes m)) - timestamp (hd (keystrokes m))"
  show ?thesis
  proof (cases "?dt \<le> 0")
    case True
    then show ?thesis
      using calculateTypingSpeed_keystrokes [OF two, of pw] by simp
  next
    case False
    then have "0 < real_of_int ?dt / 1000" by simp
    then have "clampedWpm pw (real_of_int ?dt / 1000)
                 = Finite (spec_typing_speed (length pw) (real_of_int ?dt / 1000))"
      by (rule clampedWpm_positive)
    with False show ?thesis
      using calculateTypingSpeed_keystrokes [OF two, of pw] spec_typing_speed_bounds
      by simp
  qed
qed

text \<open>
  Claim C10. For every keystroke list, every typing_start/typing_end combination and
  every password, the typing speed is returned (nothing is thrown) and is a finite number
  in \<open>[30, 150]\<close>.
\<close>

theorem typing_speed_total_bounded:
  "\<exists>v. calculateTypingSpeed m pw = Inr (Finite v) \<and> 30 \<le> v \<and> v \<le> 150"
  by (rule calculateTypingSpeed_finite)
section \<open>Properties of the challenge sequence\<close>

lemma challenge_loop_eq:
  "1 \<le> i \<Longrightarrow>
   challenge_loop ks i acc =
     Inr (acc @ map (\<lambda>(a, b). spec_clamp \<lfloor>real_of_int (timestamp b - timestamp a) / 50\<rfloor> 1 9)
                    (zip (drop (i - 1) ks) (drop i ks)))"
proof (induction ks i acc rule: challenge_loop.induct)
  case (1 ks i intervals)
  show ?case
  proof (cases "i < length ks")
    case False
    then show ?thesis by (simp add: challenge_loop.simps [of ks i])
  next
    case True
    with "1.prems" have prev: "i - 1 < length ks" by simp
    have a: "js_index ks i = Some (ks ! i)" using True by (simp add: js_index_def)
    have b: "js_index ks (i - 1) = Some (ks ! (i - 1))" using prev by (simp add: js_index_def)
    have d1: "drop i ks = ks ! i # drop (Suc i) ks"
      using True by (simp add: Cons_nth_drop_Suc)
    have d0: "drop (i - 1) ks = ks ! (i - 1) # drop i ks"
      using prev "1.prems" Cons_nth_drop_Suc [of "i - 1" ks] by simp
    have ih: "challenge_loop ks (i + 1)
                (intervals @ [min (max \<lfloor>real_of_int (timestamp (ks ! i) - timestamp (ks ! (i - 1))) / 50\<rfloor> 1) 9])
              = Inr ((intervals @ [min (max \<lfloor>real_of_int (timestamp (ks ! i) - timestamp (ks ! (i - 1))) / 50\<rfloor> 1) 9])
                  @ map (\<lambda>(a, b). spec_clamp \<lfloor>real_of_int (timestamp b - timestamp a) / 50\<rfloor> 1 9)
                    (zip (drop i ks) (drop (i + 1) ks)))"
      using "1.IH" [OF True refl a b refl refl] by simp
    have "challenge_loop ks i intervals = challenge_loop ks (i + 1)
                (intervals @ [min (max \<lfloor>real_of_int (timestamp (ks ! i) - timestamp (ks ! (i - 1))) / 50\<rfloor> 1) 9])"
      using True a b by (simp add: challenge_loop.simps [of ks i] Let_def)
    also note ih
    finally show ?thesis
      using d0 d1 by (simp add: spec_clamp_def)
  qed
qed


lemma zip_tl_short: "length ks < 2 \<Longrightarrow> zip ks (tl ks) = []"
  by (cases ks) (simp_all)

lemma spec_clamp_bounds: "1 \<le> spec_clamp x 1 9 \<and> spec_clamp x 1 9 \<le> 9"
  by (simp add: spec_clamp_def)

lemma spec_challenge_tokens_bounds:
  "t \<in> set (spec_challenge_tokens ks) \<Longrightarrow> 1 \<le> t \<and> t \<le> 9"
  using spec_clamp_bounds by (auto simp add: spec_challenge_tokens_def dest!: in_set_takeD)

lemma generateChallengeSequence_eq:
  "generateChallengeSequence m =
     Inr (js_join ''-'' (map js_toString (spec_challenge_tokens (keystrokes m))))"
proof (cases "length (keystrokes m) < 2")
  case True
  then show ?thesis
    by (simp add: generateChallengeSequence_def spec_challenge_tokens_def zip_tl_short)
next
  case False
  have "challenge_loop (keystrokes m) 1 [] =
          Inr (map (\<lambda>(a, b). spec_clamp \<lfloor>real_of_int (timestamp b - timestamp a) / 50\<rfloor> 1 9)
                 (zip (keystrokes m) (tl (keystrokes m))))"
    using challenge_loop_eq [of 1 "keystrokes m" "[]"] by (simp add: drop_Suc)
  with False show ?thesis
    by (simp add: generateChallengeSequence_def spec_challenge_tokens_def)
qed

lemma js_toString_digit:
  assumes "1 \<le> t" and "t \<le> 9"
  shows "js_toString t = [digit_chars ! nat t]"
proof -
  from assms have "\<not> t < 0" and "nat t < 10" by simp_all
  then show ?thesis
    by (simp add: js_toString_def digits_of_nat.simps [of "nat t"])
qed

text \<open>
  Claim C3. The challenge sequence is the dash-separated join of
  \<open>clamp(floor(interval_ms / 50), 1, 9)\<close> over consecutive timestamp pairs, cut to the first
  10 tokens; every token is a single digit in \<open>[1, 9]\<close>, there are at most 10 of them, and
  the sequence is the empty string when fewer than 2 key presses were observed. The
  timestamps \<open>[0, 150, 300, 450, 600]\<close> give \<open>3-3-3-3\<close>.
\<close>

theorem challenge_sequence_tokens:
  "generateChallengeSequence m =
     Inr (js_join ''-'' (map js_toString (spec_challenge_tokens (keystrokes m))))
   \<and> length (spec_challenge_tokens (keystrokes m)) \<le> 10
   \<and> (\<forall>t \<in> set (spec_challenge_tokens (keystrokes m)).
         1 \<le> t \<and> t \<le> 9
         \<and> js_toString t = [digit_chars ! nat t])
   \<and> (length (keystrokes m) < 2 \<longrightarrow> generateChallengeSequence m = Inr [])"
proof -
  have a: "generateChallengeSequence m =
     Inr (js_join ''-'' (map js_toString (spec_challenge_tokens (keystrokes m))))"
    by (rule generateChallengeSequence_eq)
  have b: "length (spec_challenge_tokens (keystrokes m)) \<le> 10"
    by (simp add: spec_challenge_tokens_def)
  have c: "\<forall>t \<in> set (spec_challenge_tokens (keystrokes m)).
         1 \<le> t \<and> t \<le> 9
         \<and> js_toString t = [digit_chars ! nat t]"
  proof
    fix t assume "t \<in> set (spec_challenge_tokens (keystrokes m))"
    then have "1 \<le> t \<and> t \<le> 9" by (rule spec_challenge_tokens_bounds)
    then show "1 \<le> t \<and> t \<le> 9
         \<and> js_toString t = [digit_chars ! nat t]"
      using js_toString_digit [of t] by simp
  qed
  have d: "length (keystrokes m) < 2 \<longrightarrow> generateChallengeSequence m = Inr []"
    by (simp add: generateChallengeSequence_def)
  from a b c d show ?thesis by blast
qed

theorem challenge_sequence_tokens_witness:
  "spec_challenge_tokens (keystrokes scenario_metrics) = [3, 3, 3, 3]
   \<and> generateChallengeSequence scenario_metrics = Inr ''3-3-3-3''
   \<and> length (keystrokes pasted_metrics) < 2
   \<and> generateChallengeSequence pasted_metrics = Inr []"
proof -
  have t: "spec_challenge_tokens (keystrokes scenario_metrics) = [3, 3, 3, 3]"
    by (simp add: spec_challenge_tokens_def scenario_metrics_def spec_clamp_def)
  have s: "js_join ''-'' (map js_toString [3, 3, 3, 3]) = ''3-3-3-3''"
    by (simp add: js_toString_def digits_of_nat.simps digit_chars_def)
  have l: "length (keystrokes pasted_metrics) < 2"
    by (simp add: pasted_metrics_def)
  from challenge_sequence_tokens [of scenario_metrics]
  have "generateChallengeSequence scenario_metrics =
     Inr (js_join ''-'' (map js_toString (spec_challenge_tokens (keystrokes scenario_metrics))))"
    by blast
  then have g: "generateChallengeSequence scenario_metrics = Inr ''3-3-3-3''"
    by (simp only: t s)
  from challenge_sequence_tokens [of pasted_metrics] l
  have e: "generateChallengeSequence pasted_metrics = Inr []"
    by blast
  from t g l e show ?thesis by blast
qed
section \<open>Properties of the submitted payload\<close>

lemma detectCapsLock_keeps:
  "browser_tabs (detectCapsLock e m) = browser_tabs m"
  "keyboard_language (detectCapsLock e m) = keyboard_language m"
  by (simp_all add: detectCapsLock_def Let_def split: option.splits)

lemma handleSubmit_state:
  "fst (handleSubmit tz st) = st\<lparr>loginAttemptsRef := Suc (loginAttemptsRef st)\<rparr>"
  by (simp add: handleSubmit_def Let_def)

lemma step_Submit_state: "fst (step st (Submit tz)) = fst (handleSubmit tz st)"
  by (simp split: prod.splits sum.splits)

lemma step_keeps:
  "browser_tabs (metrics (fst (step st ev))) = browser_tabs (metrics st)"
  "keyboard_language (metrics (fst (step st ev))) = keyboard_language (metrics st)"
  "loginAttemptsRef st \<le> loginAttemptsRef (fst (step st ev))"
proof -
  show "browser_tabs (metrics (fst (step st ev))) = browser_tabs (metrics st)"
    by (cases ev)
      (simp_all add: step_Submit_state handleSubmit_state detectCapsLock_keeps
        handlePasswordKeyDown_def handlePasswordChange_def handlePasswordKeyUp_def
        handlePasswordBlur_def Let_def del: step.simps(7))
  show "keyboard_language (metrics (fst (step st ev))) = keyboard_language (metrics st)"
    by (cases ev)
      (simp_all add: step_Submit_state handleSubmit_state detectCapsLock_keeps
        handlePasswordKeyDown_def handlePasswordChange_def handlePasswordKeyUp_def
        handlePasswordBlur_def Let_def del: step.simps(7))
  show "loginAttemptsRef st \<le> loginAttemptsRef (fst (step st ev))"
    by (cases ev)
      (simp_all add: step_Submit_state handleSubmit_state
        handlePasswordKeyDown_def handlePasswordChange_def handlePasswordKeyUp_def
        handlePasswordBlur_def Let_def del: step.simps(7))
qed

lemma step_payload:
  assumes "step st ev = (st1, Some p)"
  shows "\<exists>tz. handleSubmit tz st = (st1, Inr p)"
  using assms by (cases ev) (auto split: prod.splits sum.splits)

lemma handleSubmit_payload:
  assumes "handleSubmit tz st = (st1, Inr p)"
  shows "\<exists>v challenge z. 30 \<le> v \<and> v \<le> 150 \<and> z \<noteq> [] \<and>
     p = [(''password_length'', JSNumber (Finite (real (length (password st))))),
          (''used_special_characters'', yes_no (has_special (analyzePassword (password st)))),
          (''keyboard_language'', JSString (keyboard_language (metrics st))),
          (''login_attempts'', JSNumber (Finite (real (Suc (loginAttemptsRef st))))),
          (''was_capslock_on'', yes_no (caps_lock_detected (metrics st))),
          (''browser_tab_count'', JSNumber (Finite (real_of_int (browser_tabs (metrics st))))),
          (''challenge_sequence'', JSString challenge),
          (''timezone'', JSString z),
          (''typing_speed_wpm'', JSNumber (Finite v))]"
proof -
  obtain v where v: "calculateTypingSpeed (metrics st) (password st) = Inr (Finite v)"
    "30 \<le> v" "v \<le> 150"
    using calculateTypingSpeed_finite by blast
  obtain tzv where tz: "tz = Some tzv"
    using assms v by (cases tz) (simp_all add: handleSubmit_def Let_def generateChallengeSequence_eq)
  have z: "js_or tzv ''UTC+0'' \<noteq> []"
    by (simp add: js_or_def split: option.splits)
  from assms v tz z show ?thesis
    by (auto simp add: handleSubmit_def Let_def generateChallengeSequence_eq analyzePassword_def)
qed

lemma handleSubmit_sends:
  "\<exists>p. snd (handleSubmit (Some tz) st) = Inr p"
proof -
  obtain v where "calculateTypingSpeed (metrics st) (password st) = Inr (Finite v)"
    using calculateTypingSpeed_finite by blast
  then show ?thesis
    by (simp add: handleSubmit_def Let_def generateChallengeSequence_eq)
qed

lemma handleSubmit_timezone:
  "\<exists>p. snd (handleSubmit (Some (Some (c # cs))) st) = Inr p
       \<and> map_of p ''timezone'' = Some (JSString (c # cs))"
proof -
  obtain v where "calculateTypingSpeed (metrics st) (password st) = Inr (Finite v)"
    using calculateTypingSpeed_finite by blast
  then show ?thesis
    by (simp add: handleSubmit_def Let_def generateChallengeSequence_eq js_or_def)
qed

lemma payload_shape_submit:
  assumes "handleSubmit tz st = (st1, Inr p)"
    and "browser_tabs (metrics st) = 1"
    and "keyboard_language (metrics st) = lang"
  shows "payload_shape lang p"
proof -
  from handleSubmit_payload [OF assms(1)] obtain v challenge z where
    b: "30 \<le> v" "v \<le> 150" "z \<noteq> []" and
    p: "p = [(''password_length'', JSNumber (Finite (real (length (password st))))),
          (''used_special_characters'', yes_no (has_special (analyzePassword (password st)))),
          (''keyboard_language'', JSString (keyboard_language (metrics st))),
          (''login_attempts'', JSNumber (Finite (real (Suc (loginAttemptsRef st))))),
          (''was_capslock_on'', yes_no (caps_lock_detected (metrics st))),
          (''browser_tab_count'', JSNumber (Finite (real_of_int (browser_tabs (metrics st))))),
          (''challenge_sequence'', JSString challenge),
          (''timezone'', JSString z),
          (''typing_speed_wpm'', JSNumber (Finite v))]"
    by blast
  have tabs: "\<exists>k::int. 1 \<le> k \<and> map_of p ''browser_tab_count'' = Some (JSNumber (Finite (real_of_int k)))"
    using assms(2) p by (intro exI [of _ 1]) simp
  have att: "\<exists>n::nat. 1 \<le> n \<and> map_of p ''login_attempts'' = Some (JSNumber (Finite (real n)))"
    using p by (intro exI [of _ "Suc (loginAttemptsRef st)"]) simp
  have len: "\<exists>n::nat. map_of p ''password_length'' = Some (JSNumber (Finite (real n)))"
    using p by (intro exI [of _ "length (password st)"]) simp
  have wpm: "\<exists>v. 30 \<le> v \<and> v \<le> 150 \<and> map_of p ''typing_speed_wpm'' = Some (JSNumber (Finite v))"
    using p b by (intro exI [of _ v]) simp
  have zone: "\<exists>z. z \<noteq> [] \<and> map_of p ''timezone'' = Some (JSString z)"
    using p b by (intro exI [of _ z]) simp
  have rest: "map fst p = payload_fields"
    "map_of p ''used_special_characters'' = Some (JSString ''yes'')
       \<or> map_of p ''used_special_characters'' = Some (JSString ''no'')"
    "map_of p ''was_capslock_on'' = Some (JSString ''yes'')
       \<or> map_of p ''was_capslock_on'' = Some (JSString ''no'')"
    "map_of p ''keyboard_language'' = Some (JSString lang)"
    "\<exists>s. map_of p ''challenge_sequence'' = Some (JSString s)"
    using p assms(3) by (simp_all add: payload_fields_def yes_no_def)
  from tabs att len wpm zone rest show ?thesis
    unfolding payload_shape_def by blast
qed

lemma run_payload_shape:
  assumes "browser_tabs (metrics st) = 1"
    and "keyboard_language (metrics st) = lang"
    and "p \<in> set (run st evs)"
  shows "payload_shape lang p"
  using assms
proof (induction evs arbitrary: st)
  case Nil
  then show ?case by simp
next
  case (Cons ev evs)
  obtain st1 r where s: "step st ev = (st1, r)" by (cases "step st ev")
  then have st1: "st1 = fst (step st ev)" by simp
  have inv: "browser_tabs (metrics st1) = 1" "keyboard_language (metrics st1) = lang"
    using Cons.prems(1,2) by (simp_all add: st1 step_keeps)
  show ?case
  proof (cases r)
    case None
    with s Cons.prems(3) have "p \<in> set (run st1 evs)" by simp
    with inv show ?thesis by (rule Cons.IH)
  next
    case (Some q)
    with s Cons.prems(3) have "p = q \<or> p \<in> set (run st1 evs)" by auto
    then show ?thesis
    proof
      assume "p = q"
      with s Some obtain tz where "handleSubmit tz st = (st1, Inr p)"
        using step_payload by blast
      then show ?thesis using Cons.prems(1,2) by (rule payload_shape_submit)
    next
      assume "p \<in> set (run st1 evs)"
      with inv show ?thesis by (rule Cons.IH)
    qed
  qed
qed

lemma run_login_attempts:
  "\<exists>ns. map (\<lambda>p. map_of p ''login_attempts'') (run st evs)
           = map (\<lambda>n. Some (JSNumber (Finite (real n)))) ns
        \<and> sorted_wrt (<) ns \<and> (\<forall>n \<in> set ns. loginAttemptsRef st < n)"
proof (induction evs arbitrary: st)
  case Nil
  show ?case by (intro exI [of _ "[]"]) simp
next
  case (Cons ev evs)
  obtain st1 r where s: "step st ev = (st1, r)" by (cases "step st ev")
  then have st1: "st1 = fst (step st ev)" by simp
  have mono: "loginAttemptsRef st \<le> loginAttemptsRef st1"
    by (simp add: st1 step_keeps)
  from Cons.IH [of st1] obtain ns where
    ns: "map (\<lambda>p. map_of p ''login_attempts'') (run st1 evs)
           = map (\<lambda>n. Some (JSNumber (Finite (real n)))) ns"
      "sorted_wrt (<) ns" "\<forall>n \<in> set ns. loginAttemptsRef st1 < n"
    by blast
  show ?case
  proof (cases r)
    case None
    with s have "run st (ev # evs) = run st1 evs" by simp
    with ns mono show ?thesis by (intro exI [of _ ns]) auto
  next
    case (Some q)
    with s have r: "run st (ev # evs) = q # run st1 evs" by simp
    from s Some obtain tz where h: "handleSubmit tz st = (st1, Inr q)"
      using step_payload by blast
    from h have c: "loginAttemptsRef st1 = Suc (loginAttemptsRef st)"
      using handleSubmit_state [of tz st] by simp
    from handleSubmit_payload [OF h]
    have q: "map_of q ''login_attempts'' = Some (JSNumber (Finite (real (Suc (loginAttemptsRef st)))))"
      by auto
    show ?thesis
      using r q ns c by (intro exI [of _ "Suc (loginAttemptsRef st) # ns"]) auto
  qed
qed

lemma mountEffect_metrics:
  "browser_tabs (metrics (mountEffect nav storage initialState)) = 1"
  "keyboard_language (metrics (mountEffect nav storage initialState)) = detectKeyboardLanguage nav"
  by (simp_all add: mountEffect_def initialState_def)

lemma detectBrowserTabs_positive: "1 \<le> detectBrowserTabs storage"
  by (simp add: detectBrowserTabs_def split: option.splits)

lemma example_session_payloads:
  "example_session =
     [[(''password_length'', JSNumber (Finite 4)),
       (''used_special_characters'', JSString ''yes''),
       (''keyboard_language'', JSString ''FR''),
       (''login_attempts'', JSNumber (Finite 1)),
       (''was_capslock_on'', JSString ''no''),
       (''browser_tab_count'', JSNumber (Finite 1)),
       (''challenge_sequence'', JSString []),
       (''timezone'', JSString ''UTC+0''),
       (''typing_speed_wpm'', JSNumber (Finite 60))],
      [(''password_length'', JSNumber (Finite 4)),
       (''used_special_characters'', JSString ''yes''),
       (''keyboard_language'', JSString ''FR''),
       (''login_attempts'', JSNumber (Finite 3)),
       (''was_capslock_on'', JSString ''no''),
       (''browser_tab_count'', JSNumber (Finite 1)),
       (''challenge_sequence'', JSString []),
       (''timezone'', JSString ''Europe/Paris''),
       (''typing_speed_wpm'', JSNumber (Finite 60))]]"
  by (simp add: example_session_def session_def mountEffect_def initialState_def
      handlePasswordChange_def handleSubmit_def calculateTypingSpeed_def
      generateChallengeSequence_def analyzePassword_def special_characters_def
      detectKeyboardLanguage_def toUpperCase_def js_or_def detectBrowserTabs_def
      parseInt_def is_digit_def is_space_def digits_value_def yes_no_def Let_def
      char_of_def bit_iff_odd)


text \<open>
  Claim C9, as the code has it. Every payload sent during a client session carries all
  nine fields: \<open>password_length\<close> a non-negative integer, \<open>used_special_characters\<close> and
  \<open>was_capslock_on\<close> the strings \<open>"yes"\<close> or \<open>"no"\<close>, \<open>keyboard_language\<close> the detected
  language, \<open>browser_tab_count\<close> an integer that is at least 1, \<open>login_attempts\<close> a
  positive integer, \<open>challenge_sequence\<close> a string, \<open>timezone\<close> a non-empty string and
  \<open>typing_speed_wpm\<close> a finite number in \<open>[30, 150]\<close>. Over the session the
  \<open>login_attempts\<close> values are strictly increasing. The detected language is \<open>"EN"\<close>
  when detection throws or finds no locale. A submission sends a payload whenever the
  platform's \<open>Intl\<close> interface is available, and the payload carries the resolved time
  zone when one is reported.
\<close>

theorem submitted_payload_shape:
  "(\<forall>p \<in> set (session nav storage evs).
       map fst p = payload_fields
     \<and> (\<exists>n::nat. map_of p ''password_length'' = Some (JSNumber (Finite (real n))))
     \<and> (map_of p ''used_special_characters'' = Some (JSString ''yes'')
          \<or> map_of p ''used_special_characters'' = Some (JSString ''no''))
     \<and> (map_of p ''was_capslock_on'' = Some (JSString ''yes'')
          \<or> map_of p ''was_capslock_on'' = Some (JSString ''no''))
     \<and> map_of p ''keyboard_language'' = Some (JSString (detectKeyboardLanguage nav))
     \<and> (\<exists>k::int. 1 \<le> k \<and> map_of p ''browser_tab_count'' = Some (JSNumber (Finite (real_of_int k))))
     \<and> (\<exists>n::nat. 1 \<le> n \<and> map_of p ''login_attempts'' = Some (JSNumber (Finite (real n))))
     \<and> (\<exists>s. map_of p ''challenge_sequence'' = Some (JSString s))
     \<and> (\<exists>z. z \<noteq> [] \<and> map_of p ''timezone'' = Some (JSString z))
     \<and> (\<exists>v. 30 \<le> v \<and> v \<le> 150 \<and> map_of p ''typing_speed_wpm'' = Some (JSNumber (Finite v))))
   \<and> (\<exists>ns. map (\<lambda>p. map_of p ''login_attempts'') (session nav storage evs)
              = map (\<lambda>n. Some (JSNumber (Finite (real n)))) ns
           \<and> sorted_wrt (<) ns)
   \<and> detectKeyboardLanguage None = ''EN''
   \<and> detectKeyboardLanguage (Some \<lparr>language = None, userLanguage = None\<rparr>) = ''EN''
   \<and> (\<exists>p. snd (handleSubmit (Some tz) st) = Inr p)
   \<and> (\<exists>p. snd (handleSubmit (Some (Some (c # cs))) st) = Inr p
          \<and> map_of p ''timezone'' = Some (JSString (c # cs)))"
proof -
  have shape: "\<forall>p \<in> set (session nav storage evs). payload_shape (detectKeyboardLanguage nav) p"
    unfolding session_def
    using run_payload_shape [OF mountEffect_metrics] by blast
  have attempts: "\<exists>ns. map (\<lambda>p. map_of p ''login_attempts'') (session nav storage evs)
              = map (\<lambda>n. Some (JSNumber (Finite (real n)))) ns
           \<and> sorted_wrt (<) ns"
    unfolding session_def
    using run_login_attempts [of "mountEffect nav storage initialState" evs] by blast
  have lang: "detectKeyboardLanguage None = ''EN''"
    "detectKeyboardLanguage (Some \<lparr>language = None, userLanguage = None\<rparr>) = ''EN''"
    by (simp_all add: detectKeyboardLanguage_def js_or_def toUpperCase_def Let_def
        char_of_def bit_iff_odd)
  from shape attempts lang handleSubmit_sends [of tz st] handleSubmit_timezone [of c cs st]
  show ?thesis
    unfolding payload_shape_def by blast
qed

theorem submitted_payload_shape_witness:
  "hd example_session \<in> set example_session
   \<and> map fst (hd example_session) = payload_fields
   \<and> map_of (hd example_session) ''used_special_characters'' = Some (JSString ''yes'')
   \<and> map_of (hd example_session) ''keyboard_language'' = Some (JSString ''FR'')
   \<and> map_of (hd example_session) ''browser_tab_count'' = Some (JSNumber (Finite 1))
   \<and> map (\<lambda>p. map_of p ''login_attempts'') example_session
        = [Some (JSNumber (Finite 1)), Some (JSNumber (Finite 3))]"
proof -
  have m: "hd example_session \<in> set example_session"
    by (simp add: example_session_payloads)
  from submitted_payload_shape
         [of "Some \<lparr>language = Some ''fr-FR'', userLanguage = None\<rparr>" "Some (Some ''3'')"
             "[PasswordChange ''p@ss'' 1000, Submit (Some None), Submit None,
               Submit (Some (Some ''Europe/Paris''))]",
          folded example_session_def] m
  have "map fst (hd example_session) = payload_fields" by blast
  with m show ?thesis
    by (simp add: example_session_payloads)
qed

text \<open>
  Claim C9 as stated fails: in the example session the two flags of the first payload
  are the strings \<open>"yes"\<close> and \<open>"no"\<close>, not booleans, and with no time zone reported the
  \<open>timezone\<close> field is \<open>"UTC+0"\<close>, not \<open>"UTC"\<close>.
\<close>

theorem submitted_payload_counterexample:
  "hd example_session \<in> set example_session
   \<and> map_of (hd example_session) ''used_special_characters'' = Some (JSString ''yes'')
   \<and> \<not> spec_is_boolean (map_of (hd example_session) ''used_special_characters'')
   \<and> map_of (hd example_session) ''was_capslock_on'' = Some (JSString ''no'')
   \<and> \<not> spec_is_boolean (map_of (hd example_session) ''was_capslock_on'')
   \<and> map_of (hd example_session) ''timezone'' = Some (JSString ''UTC+0'')
   \<and> map_of (hd example_session) ''timezone'' \<noteq> Some (JSString ''UTC'')"
  by (simp add: example_session_payloads spec_is_boolean_def)

section \<open>Properties of the risk engine\<close>

lemma apply_heuristics_raises: "base \<le> apply_heuristics hs p base"
proof -
  have "base \<le> fold (\<lambda>h s. if trigger h p then max s (floor_score h) else s) hs base"
  proof (induction hs arbitrary: base)
    case Nil
    show ?case by simp
  next
    case (Cons h hs)
    have "base \<le> (if trigger h p then max base (floor_score h) else base)" by simp
    also have "\<dots> \<le> fold (\<lambda>h s. if trigger h p then max s (floor_score h) else s) hs
                       (if trigger h p then max base (floor_score h) else base)"
      by (rule Cons.IH)
    finally show ?case by simp
  qed
  then show ?thesis by (simp add: apply_heuristics_def)
qed

lemma apply_heuristics_floor:
  assumes "h \<in> set hs" and "trigger h p"
  shows "floor_score h \<le> apply_heuristics hs p base"
  using assms(1)
proof (induction hs arbitrary: base)
  case Nil
  then show ?case by simp
next
  case (Cons g hs)
  have unfold: "apply_heuristics (g # hs) p base =
                  apply_heuristics hs p (if trigger g p then max base (floor_score g) else base)"
    by (simp add: apply_heuristics_def)
  show ?case
  proof (cases "h = g")
    case True
    with assms(2) have "floor_score h \<le> (if trigger g p then max base (floor_score g) else base)"
      by simp
    also have "\<dots> \<le> apply_heuristics hs p (if trigger g p then max base (floor_score g) else base)"
      by (rule apply_heuristics_raises)
    finally show ?thesis by (simp only: unfold)
  next
    case False
    with Cons.prems have "h \<in> set hs" by simp
    then show ?thesis by (simp only: unfold Cons.IH)
  qed
qed

lemma clamp_score_bounds: "0 \<le> clamp_score s \<and> clamp_score s \<le> 1"
  by (simp add: clamp_score_def)

lemma clamp_score_mono: "a \<le> b \<Longrightarrow> clamp_score a \<le> clamp_score b"
  by (auto simp add: clamp_score_def max_def min_def)

lemma risk_scorer_fields:
  "risk_score (risk_scorer classifier hs p) =
     clamp_score (apply_heuristics hs p (case classifier of Some model \<Rightarrow> model p | None \<Rightarrow> 0))"
  "risk_level (risk_scorer classifier hs p) = risk_level_of (risk_score (risk_scorer classifier hs p))"
  "set (reasons (risk_scorer classifier hs p)) =
     set (case classifier of Some model \<Rightarrow> [] | None \<Rightarrow> [''heuristic_fallback''])
       \<union> reason_code ` {h \<in> set hs. trigger h p}"
  by (simp_all add: risk_scorer_def Let_def)

lemma fast_typing_high:
  assumes "unusually_fast_typing fl \<in> set hs" and "0.7 \<le> fl"
    and "150 \<le> fp_typing_speed_wpm p"
  shows "risk_level (risk_scorer classifier hs p) = High"
    and "''unusually_fast_typing'' \<in> set (reasons (risk_scorer classifier hs p))"
proof -
  let ?h = "unusually_fast_typing fl"
  let ?base = "case classifier of Some model \<Rightarrow> model p | None \<Rightarrow> 0"
  have fires: "trigger ?h p" using assms(3) by (simp add: unusually_fast_typing_def)
  have "fl = floor_score ?h" by (simp add: unusually_fast_typing_def)
  also have "\<dots> \<le> apply_heuristics hs p ?base"
    using assms(1) fires by (rule apply_heuristics_floor)
  finally have "0.7 \<le> apply_heuristics hs p ?base" using assms(2) by simp
  then have "0.7 \<le> clamp_score (apply_heuristics hs p ?base)"
    by (simp add: clamp_score_def)
  then show "risk_level (risk_scorer classifier hs p) = High"
    by (simp add: risk_scorer_fields risk_level_of_def)
  have "reason_code ?h \<in> reason_code ` {h \<in> set hs. trigger h p}"
    using assms(1) fires by blast
  then show "''unusually_fast_typing'' \<in> set (reasons (risk_scorer classifier hs p))"
    by (simp add: risk_scorer_fields(3) unusually_fast_typing_def)
qed

lemma heuristics_never_lower:
  assumes "model p \<le> 1"
  shows "model p \<le> risk_score (risk_scorer (Some model) hs p)"
proof -
  have "model p \<le> apply_heuristics hs p (model p)" by (rule apply_heuristics_raises)
  with assms show ?thesis
    by (simp add: risk_scorer_fields clamp_score_def)
qed

lemma fold_max_upper: "x \<in> set xs \<Longrightarrow> x \<le> fold max xs (b::nat)"
proof (induction xs arbitrary: b)
  case Nil
  then show ?case by simp
next
  case (Cons y ys)
  have grows: "c \<le> fold max ys c" for c :: nat
  proof (induction ys arbitrary: c)
    case Nil
    show ?case by simp
  next
    case (Cons z zs)
    have "c \<le> max z c" by simp
    also have "\<dots> \<le> fold max zs (max z c)" by (rule Cons.IH)
    finally show ?case by simp
  qed
  show ?case
  proof (cases "x = y")
    case True
    have "x \<le> max y b" using True by simp
    also have "\<dots> \<le> fold max ys (max y b)" by (rule grows)
    finally show ?thesis by simp
  next
    case False
    with Cons.prems have "x \<in> set ys" by simp
    then show ?thesis by (simp add: Cons.IH)
  qed
qed

lemma next_id_fresh: "next_id store \<notin> event_id ` set store"
proof
  assume "next_id store \<in> event_id ` set store"
  then have "next_id store \<in> set (map event_id store)" by simp
  then have "next_id store \<le> fold max (map event_id store) 0" by (rule fold_max_upper)
  then show False by (simp add: next_id_def)
qed

lemma record_event_distinct:
  assumes "distinct (map event_id store)"
  shows "distinct (map event_id (record_event store user now p a out))"
  using assms next_id_fresh [of store] by (simp add: record_event_def)

lemma submit_login_distinct:
  assumes "distinct (map event_id store)"
  shows "distinct (map event_id (fst (submit_login classifier hs store user now attempt)))"
  using assms by (cases attempt) (simp_all add: submit_login_def Let_def record_event_distinct)

text \<open>
  Claim C5. The level is the threshold function of the score (below 0.34 low, from 0.34
  and below 0.7 medium, from 0.7 high), and it never decreases when the score grows.
\<close>

theorem risk_level_thresholds_monotone:
  "(s < 0.34 \<longrightarrow> risk_level_of s = Low)
   \<and> (0.34 \<le> s \<and> s < 0.7 \<longrightarrow> risk_level_of s = Medium)
   \<and> (0.7 \<le> s \<longrightarrow> risk_level_of s = High)
   \<and> (s1 \<le> s2 \<longrightarrow> level_rank (risk_level_of s1) \<le> level_rank (risk_level_of s2))"
proof -
  have mono: "level_rank (risk_level_of s1) \<le> level_rank (risk_level_of s2)" if "s1 \<le> s2"
  proof (cases "s2 < 0.34")
    case True
    with that show ?thesis by (simp add: risk_level_of_def)
  next
    case low: False
    show ?thesis
    proof (cases "s2 < 0.7")
      case True
      with low that show ?thesis by (simp add: risk_level_of_def)
    next
      case False
      with low show ?thesis by (simp add: risk_level_of_def)
    qed
  qed
  then show ?thesis by (simp add: risk_level_of_def)
qed

theorem risk_level_thresholds_monotone_witness:
  "(0.2::real) < 0.34 \<and> risk_level_of 0.2 = Low
   \<and> (0.34::real) \<le> 0.5 \<and> (0.5::real) < 0.7 \<and> risk_level_of 0.5 = Medium
   \<and> (0.7::real) \<le> 0.9 \<and> risk_level_of 0.9 = High
   \<and> (0.2::real) \<le> 0.9 \<and> level_rank (risk_level_of 0.2) \<le> level_rank (risk_level_of 0.9)"
  using risk_level_thresholds_monotone [of "0.2" "0.2" "0.9"]
    risk_level_thresholds_monotone [of "0.5" "0.2" "0.9"]
    risk_level_thresholds_monotone [of "0.9" "0.2" "0.9"]
  by simp

text \<open>
  Claim C6. For a payload with \<open>typing_speed_wpm \<ge> 150\<close> the fast-typing override, whose
  floor is at least the threshold of high, forces the level high whatever the
  classifier returns (or when there is none) and puts \<open>unusually_fast_typing\<close> among the
  reasons; and for every payload the final score is not below the classifier's base
  score, a probability of at most 1.
\<close>

theorem fast_typing_forces_high:
  "(unusually_fast_typing fl \<in> set hs \<and> 0.7 \<le> fl \<and> 150 \<le> fp_typing_speed_wpm p \<longrightarrow>
      risk_level (risk_scorer classifier hs p) = High
      \<and> ''unusually_fast_typing'' \<in> set (reasons (risk_scorer classifier hs p)))
   \<and> (model q \<le> 1 \<longrightarrow> model q \<le> risk_score (risk_scorer (Some model) hs q))"
  using fast_typing_high [of fl hs p classifier] heuristics_never_lower [of model q hs]
  by blast

theorem fast_typing_forces_high_witness:
  "unusually_fast_typing 0.95 \<in> set [unusually_fast_typing 0.95]
   \<and> (0.7::real) \<le> 0.95
   \<and> 150 \<le> fp_typing_speed_wpm fast_payload
   \<and> risk_level (risk_scorer (Some (\<lambda>p. 0.1)) [unusually_fast_typing 0.95] fast_payload) = High
   \<and> ''unusually_fast_typing''
        \<in> set (reasons (risk_scorer (Some (\<lambda>p. 0.1)) [unusually_fast_typing 0.95] fast_payload))
   \<and> (0.1::real) \<le> 1
   \<and> 0.1 \<le> risk_score (risk_scorer (Some (\<lambda>p. 0.1)) [unusually_fast_typing 0.95] calm_payload)"
  using fast_typing_forces_high
          [of "0.95" "[unusually_fast_typing 0.95]" fast_payload "Some (\<lambda>p. 0.1)"
              "\<lambda>p. 0.1" calm_payload]
  by (simp add: fast_payload_def)

text \<open>
  Claim C7. With no classifier at hand the attempt is still scored: the score lies in
  \<open>[0, 1]\<close> and is what the heuristics alone give, the reasons carry
  \<open>heuristic_fallback\<close>, and the attempt is answered with its assessment, allowed or
  blocked for high risk, never with an error for the missing model.
\<close>

theorem heuristic_fallback_scoring:
  "0 \<le> risk_score (risk_scorer None hs p)
   \<and> risk_score (risk_scorer None hs p) \<le> 1
   \<and> risk_score (risk_scorer None hs p) = clamp_score (apply_heuristics hs p 0)
   \<and> ''heuristic_fallback'' \<in> set (reasons (risk_scorer None hs p))
   \<and> snd (submit_login None hs store user now (Some p))
        = (if risk_level (risk_scorer None hs p) = High
           then Inl (LoginBlocked (risk_scorer None hs p))
           else Inr (risk_scorer None hs p))"
proof -
  have score: "risk_score (risk_scorer None hs p) = clamp_score (apply_heuristics hs p 0)"
    by (simp add: risk_scorer_fields)
  have tag: "''heuristic_fallback'' \<in> set (reasons (risk_scorer None hs p))"
    by (simp add: risk_scorer_fields(3))
  have answer: "snd (submit_login None hs store user now (Some p))
        = (if risk_level (risk_scorer None hs p) = High
           then Inl (LoginBlocked (risk_scorer None hs p))
           else Inr (risk_scorer None hs p))"
    by (cases "risk_level (risk_scorer None hs p)") (simp_all add: submit_login_def Let_def)
  from score tag answer clamp_score_bounds [of "apply_heuristics hs p 0"]
  show ?thesis by simp
qed

theorem heuristic_fallback_scoring_witness:
  "risk_score (risk_scorer None [unusually_fast_typing 0.95] fast_payload) = 0.95
   \<and> ''heuristic_fallback'' \<in> set (reasons (risk_scorer None [unusually_fast_typing 0.95] fast_payload))
   \<and> snd (submit_login None [unusually_fast_typing 0.95] [] ''alice'' 1000 (Some fast_payload))
        = Inl (LoginBlocked (risk_scorer None [unusually_fast_typing 0.95] fast_payload))
   \<and> snd (submit_login None [unusually_fast_typing 0.95] [] ''bob'' 2000 (Some calm_payload))
        = Inr (risk_scorer None [unusually_fast_typing 0.95] calm_payload)"
proof -
  have high: "risk_level (risk_scorer None [unusually_fast_typing 0.95] fast_payload) = High"
    by (simp add: risk_scorer_def apply_heuristics_def clamp_score_def risk_level_of_def
        unusually_fast_typing_def fast_payload_def Let_def)
  have low: "risk_level (risk_scorer None [unusually_fast_typing 0.95] calm_payload) \<noteq> High"
    by (simp add: risk_scorer_def apply_heuristics_def clamp_score_def risk_level_of_def
        unusually_fast_typing_def fast_payload_def calm_payload_def Let_def)
  have score: "clamp_score (apply_heuristics [unusually_fast_typing 0.95] fast_payload 0) = 0.95"
    by (simp add: apply_heuristics_def clamp_score_def unusually_fast_typing_def fast_payload_def)
  from heuristic_fallback_scoring [of "[unusually_fast_typing 0.95]" fast_payload "[]" "''alice''" 1000]
    heuristic_fallback_scoring [of "[unusually_fast_typing 0.95]" calm_payload "[]" "''bob''" 2000]
    high low score
  show ?thesis by simp
qed

text \<open>
  Claim C1. A submitted attempt that is scored appends exactly one LoginEvent to the
  Event Store, under a fresh id, carrying the payload, the assessment and the outcome
  that corresponds to the decision, whether the attempt is allowed or denied; an attempt
  rejected as malformed is not scored and leaves the store as it was.
\<close>

theorem every_attempt_recorded:
  "(\<exists>ev. fst (submit_login classifier hs store user now (Some p)) = store @ [ev]
         \<and> event_id ev \<notin> event_id ` set store
         \<and> event_username ev = user \<and> created_at ev = now \<and> payload ev = p
         \<and> assessment ev = risk_scorer classifier hs p
         \<and> outcome ev = access_decision (risk_level (risk_scorer classifier hs p))
         \<and> snd (submit_login classifier hs store user now (Some p))
              = (if outcome ev = Denied then Inl (LoginBlocked (assessment ev))
                 else Inr (assessment ev)))
   \<and> submit_login classifier hs store user now None = (store, Inl MalformedInput)"
proof -
  let ?a = "risk_scorer classifier hs p"
  let ?ev = "\<lparr>event_id = next_id store, event_username = user, created_at = now,
              payload = p, assessment = ?a, outcome = access_decision (risk_level ?a)\<rparr>"
  have "fst (submit_login classifier hs store user now (Some p)) = store @ [?ev]"
    by (simp add: submit_login_def record_event_def Let_def)
  moreover have "event_id ?ev \<notin> event_id ` set store"
    using next_id_fresh [of store] by simp
  moreover have "snd (submit_login classifier hs store user now (Some p))
              = (if outcome ?ev = Denied then Inl (LoginBlocked (assessment ?ev))
                 else Inr (assessment ?ev))"
    by (simp add: submit_login_def Let_def)
  moreover have "submit_login classifier hs store user now None = (store, Inl MalformedInput)"
    by (simp add: submit_login_def)
  ultimately show ?thesis
    by (intro conjI exI [of _ ?ev]) simp_all
qed

lemma scenario_store_events:
  "map event_id scenario_store = [1, 2]"
  "map created_at scenario_store = [1000, 2000]"
  "map outcome scenario_store = [Denied, Allowed]"
  "map (\<lambda>e. reasons (assessment e)) scenario_store
     = [[''heuristic_fallback'', ''unusually_fast_typing''], [''heuristic_fallback'']]"
  by (simp_all add: scenario_store_def submit_login_def record_event_def next_id_def
      risk_scorer_def apply_heuristics_def clamp_score_def risk_level_of_def
      unusually_fast_typing_def fast_payload_def calm_payload_def Let_def)

theorem every_attempt_recorded_witness:
  "length (fst (submit_login None [unusually_fast_typing 0.95] [] ''alice'' 1000 (Some fast_payload))) = 1
   \<and> map outcome scenario_store = [Denied, Allowed]
   \<and> submit_login None [unusually_fast_typing 0.95] scenario_store ''carol'' 3000 None
        = (scenario_store, Inl MalformedInput)"
proof -
  from every_attempt_recorded [of None "[unusually_fast_typing 0.95]" "[]" "''alice''" 1000 fast_payload]
  obtain ev where
    "fst (submit_login None [unusually_fast_typing 0.95] [] ''alice'' 1000 (Some fast_payload)) = [] @ [ev]"
    by blast
  then have one: "length (fst (submit_login None [unusually_fast_typing 0.95] [] ''alice'' 1000
                                 (Some fast_payload))) = 1"
    by simp
  from every_attempt_recorded [of None "[unusually_fast_typing 0.95]" scenario_store "''carol''" 3000]
  have none: "submit_login None [unusually_fast_typing 0.95] scenario_store ''carol'' 3000 None
        = (scenario_store, Inl MalformedInput)"
    by blast
  from one none scenario_store_events(3) show ?thesis by blast
qed

section \<open>Properties of real-time delivery and of the events panel\<close>

lemma query_recent_newer:
  "e \<in> set (query_recent store (Some since) limit) \<Longrightarrow> since < created_at e"
  by (auto simp add: query_recent_def dest: in_set_takeD)

lemma query_recent_sorted: "sorted (map created_at (query_recent store since limit))"
proof -
  have "sorted (take limit (map created_at (sort_key created_at
          (case since of None \<Rightarrow> store | Some s \<Rightarrow> filter (\<lambda>e. s < created_at e) store))))"
    by (intro sorted_wrt_take sorted_sort_key)
  then show ?thesis by (simp add: query_recent_def take_map)
qed

lemma query_recent_capped: "length (query_recent store since limit) \<le> limit"
  by (simp add: query_recent_def)

lemma query_recent_distinct:
  assumes "distinct (map event_id store)"
  shows "distinct (map event_id (query_recent store since limit))"
proof -
  let ?chosen = "case since of None \<Rightarrow> store | Some s \<Rightarrow> filter (\<lambda>e. s < created_at e) store"
  have "distinct (map event_id ?chosen)"
    using assms by (cases since) (simp_all add: distinct_map_filter)
  then have "distinct (map event_id (sort_key created_at ?chosen))"
    by (simp add: distinct_map)
  then have "distinct (take limit (map event_id (sort_key created_at ?chosen)))"
    by (rule distinct_take)
  then show ?thesis by (simp add: query_recent_def take_map)
qed

lemma mergeEvents_capped: "length (mergeEvents items prev) \<le> 50"
  by (simp add: mergeEvents_def Let_def)

lemma mergeEvents_distinct:
  assumes "distinct (map event_id items)" and "distinct (map event_id prev)"
  shows "distinct (map event_id (mergeEvents items prev))"
proof -
  let ?new = "filter (\<lambda>e. find (\<lambda>p. event_id p = event_id e) prev = None) items"
  have fresh: "event_id e \<notin> event_id ` set prev" if "e \<in> set ?new" for e
    using that by (auto simp add: find_None_iff)
  have "distinct (map event_id ?new)"
    using assms(1) by (rule distinct_map_filter)
  moreover have "set (map event_id ?new) \<inter> set (map event_id prev) = {}"
    using fresh by auto
  ultimately have "distinct (map event_id (?new @ prev))"
    using assms(2) by simp
  then have "distinct (take 50 (map event_id (?new @ prev)))"
    by (rule distinct_take)
  then show ?thesis by (simp add: mergeEvents_def Let_def take_map)
qed

lemma panel_poll_invariant:
  assumes "distinct (map event_id store)"
    and "distinct (map event_id (events st))" and "length (events st) \<le> 50"
  shows "distinct (map event_id (events
           (loadEvents captured (\<lambda>since limit. Inr (Some (query_recent store (Some since) limit)))
              now received st)))
         \<and> length (events
           (loadEvents captured (\<lambda>since limit. Inr (Some (query_recent store (Some since) limit)))
              now received st)) \<le> 50"
  using assms mergeEvents_capped
  by (simp add: loadEvents_def Let_def mergeEvents_distinct query_recent_distinct)

lemma panel_run_invariant:
  assumes "\<forall>poll \<in> set polls. distinct (map event_id (fst poll))"
    and "distinct (map event_id (events st))" and "length (events st) \<le> 50"
  shows "distinct (map event_id (events (panel_run polls st)))
         \<and> length (events (panel_run polls st)) \<le> 50"
  using assms
proof (induction polls st rule: panel_run.induct)
  case (1 st)
  then show ?case by simp
next
  case (2 store now received polls st)
  from "2.prems"(1) have d: "distinct (map event_id store)" by simp
  from "2.prems"(1) have rest: "\<forall>poll \<in> set polls. distinct (map event_id (fst poll))" by simp
  note step = panel_poll_invariant [OF d "2.prems"(2,3), of None now received]
  from "2.IH" [OF rest] step show ?case by simp
qed

text \<open>
  Claim C8. A poll with cursor \<open>since\<close> and \<open>limit\<close> returns only events created strictly
  after \<open>since\<close>, oldest first, at most \<open>limit\<close> of them. A merge step of the client never
  leaves more than 50 entries, and keeps the ids of the buffer distinct when the items
  received carry distinct ids; so after any number of polls against stores whose ids are
  unique, the buffer holds no two entries with the same id and at most 50 entries. The
  ids of the store stay unique with every attempt that is submitted.
\<close>

theorem realtime_delivery_and_merge:
  "(\<forall>e \<in> set (query_recent store (Some since) limit). since < created_at e)
   \<and> sorted (map created_at (query_recent store (Some since) limit))
   \<and> length (query_recent store (Some since) limit) \<le> limit
   \<and> length (mergeEvents items prev) \<le> 50
   \<and> (distinct (map event_id items) \<and> distinct (map event_id prev) \<longrightarrow>
        distinct (map event_id (mergeEvents items prev)))
   \<and> ((\<forall>poll \<in> set polls. distinct (map event_id (fst poll))) \<longrightarrow>
        distinct (map event_id (events (panel_run polls initialPanel)))
        \<and> length (events (panel_run polls initialPanel)) \<le> 50)
   \<and> (distinct (map event_id store) \<longrightarrow>
        distinct (map event_id (fst (submit_login classifier hs store user now attempt))))"
proof -
  have run: "(\<forall>poll \<in> set polls. distinct (map event_id (fst poll))) \<longrightarrow>
        distinct (map event_id (events (panel_run polls initialPanel)))
        \<and> length (events (panel_run polls initialPanel)) \<le> 50"
  proof
    assume "\<forall>poll \<in> set polls. distinct (map event_id (fst poll))"
    then show "distinct (map event_id (events (panel_run polls initialPanel)))
        \<and> length (events (panel_run polls initialPanel)) \<le> 50"
      by (rule panel_run_invariant) (simp_all add: initialPanel_def)
  qed
  from run query_recent_newer [of _ store since limit] query_recent_sorted [of store "Some since" limit]
    query_recent_capped [of store "Some since" limit] mergeEvents_capped [of items prev]
    mergeEvents_distinct [of items prev]
    submit_login_distinct [of store classifier hs user now attempt]
  show ?thesis by blast
qed

lemma scenario_store_value:
  "scenario_store =
     [\<lparr>event_id = 1, event_username = ''alice'', created_at = 1000, payload = fast_payload,
       assessment = \<lparr>risk_score = 0.95, risk_level = High,
                      reasons = [''heuristic_fallback'', ''unusually_fast_typing'']\<rparr>,
       outcome = Denied\<rparr>,
      \<lparr>event_id = 2, event_username = ''bob'', created_at = 2000, payload = calm_payload,
       assessment = \<lparr>risk_score = 0, risk_level = Low, reasons = [''heuristic_fallback'']\<rparr>,
       outcome = Allowed\<rparr>]"
  by (simp add: scenario_store_def submit_login_def record_event_def next_id_def
      risk_scorer_def apply_heuristics_def clamp_score_def risk_level_of_def
      unusually_fast_typing_def fast_payload_def calm_payload_def Let_def)

lemma scenario_polls:
  "map event_id (query_recent scenario_store (Some 0) 20) = [1, 2]"
  "map created_at (query_recent scenario_store (Some 0) 20) = [1000, 2000]"
  "query_recent scenario_store (Some 2000) 20 = []"
  "map event_id (events (panel_run [(scenario_store, 3000, 3010), (scenario_store, 5000, 5010)]
                           initialPanel)) = [1, 2]"
  by (simp_all add: scenario_store_value query_recent_def loadEvents_def mergeEvents_def
      initialPanel_def Let_def)

theorem realtime_delivery_and_merge_witness:
  "map created_at (query_recent scenario_store (Some 0) 20) = [1000, 2000]
   \<and> query_recent scenario_store (Some 2000) 20 = []
   \<and> distinct (map event_id scenario_store)
   \<and> distinct (map event_id (mergeEvents scenario_store scenario_store))
   \<and> map event_id (events (panel_run [(scenario_store, 3000, 3010), (scenario_store, 5000, 5010)]
                              initialPanel)) = [1, 2]
   \<and> distinct (map event_id (events
        (panel_run [(scenario_store, 3000, 3010), (scenario_store, 5000, 5010)] initialPanel)))"
proof -
  have d: "distinct (map event_id scenario_store)"
    by (simp add: scenario_store_events)
  have polls: "\<forall>poll \<in> set [(scenario_store, 3000, 3010), (scenario_store, 5000, 5010)].
         distinct (map event_id (fst poll))"
    using d by simp
  note c8 = realtime_delivery_and_merge
              [of scenario_store 0 20 scenario_store scenario_store
                  "[(scenario_store, 3000, 3010), (scenario_store, 5000, 5010)]"]
  from c8 have newer: "\<forall>e \<in> set (query_recent scenario_store (Some 0) 20). 0 < created_at e"
    by blast
  from c8 d have merged: "distinct (map event_id (mergeEvents scenario_store scenario_store))"
    by blast
  from c8 polls have run: "distinct (map event_id (events
        (panel_run [(scenario_store, 3000, 3010), (scenario_store, 5000, 5010)] initialPanel)))"
    by blast
  from merged run d scenario_polls show ?thesis by blast
qed


end
